theory Spec2Isabelle
  imports Main "HOL-Library.Sublist"
begin

section \<open>JavaScript strings and plain objects\<close>

text \<open>
  A JavaScript string is modelled as a \<open>string\<close> (a list of characters). All literals the
  program compares against are ASCII, so substring search and equality agree with the
  program's on the UTF-8 form of a name.
\<close>

text \<open>\<^verbatim>\<open>s.startsWith(n)\<close>\<close>

fun startsWith :: "string \<Rightarrow> string \<Rightarrow> bool" where
  "startsWith s [] = True"
| "startsWith [] (c # n) = False"
| "startsWith (d # s) (c # n) = (d = c \<and> startsWith s n)"

text \<open>\<^verbatim>\<open>s.includes(n)\<close>: \<open>n\<close> occurs in \<open>s\<close> as a contiguous substring.\<close>

fun str_includes :: "string \<Rightarrow> string \<Rightarrow> bool" where
  "str_includes [] n = (n = [])"
| "str_includes (d # s) n = (startsWith (d # s) n \<or> str_includes s n)"

text \<open>\<^verbatim>\<open>s.endsWith(n)\<close>\<close>

definition endsWith :: "string \<Rightarrow> string \<Rightarrow> bool" where
  "endsWith s n = startsWith (rev s) (rev n)"

text \<open>
  A plain object whose keys are not integer-like keeps its properties in insertion order:
  an association list. Assigning to an existing key replaces the value where it stands,
  assigning to a new key appends.
\<close>

fun obj_set :: "string \<Rightarrow> 'v \<Rightarrow> (string \<times> 'v) list \<Rightarrow> (string \<times> 'v) list" where
  "obj_set k v [] = [(k, v)]"
| "obj_set k v ((k', v') # rest) =
     (if k' = k then (k, v) # rest else (k', v') # obj_set k v rest)"

fun obj_get :: "(string \<times> 'v) list \<Rightarrow> string \<Rightarrow> 'v option" where
  "obj_get [] k = None"
| "obj_get ((k', v') # rest) k = (if k' = k then Some v' else obj_get rest k)"

text \<open>
  The property names every plain object inherits from \<open>Object.prototype\<close>: a lookup
  \<^verbatim>\<open>obj[name]\<close> with one of them is not \<open>undefined\<close>.
\<close>

definition inherited_properties :: "string list" where
  "inherited_properties =
     [''constructor'', ''__defineGetter__'', ''__defineSetter__'', ''hasOwnProperty'',
      ''__lookupGetter__'', ''__lookupSetter__'', ''isPrototypeOf'',
      ''propertyIsEnumerable'', ''toString'', ''valueOf'', ''__proto__'',
      ''toLocaleString'']"

section \<open>Platform Identifier Normalizer (lib/platform.js, src/unnamed/part_000)\<close>

text \<open>
  Node's POSIX \<^verbatim>\<open>path.extname\<close>. It looks at the last component of the path (trailing
  slashes skipped) and returns that component from its last dot on; the result is empty
  when the component has no dot, when its only dot is its first character, and when the
  component is \<^verbatim>\<open>..\<close>.
\<close>

definition last_component :: "string \<Rightarrow> string" where
  "last_component p =
     rev (takeWhile (\<lambda>c. c \<noteq> CHR ''/'') (dropWhile (\<lambda>c. c = CHR ''/'') (rev p)))"

definition after_last_dot :: "string \<Rightarrow> string" where
  "after_last_dot b = rev (takeWhile (\<lambda>c. c \<noteq> CHR ''.'') (rev b))"

definition before_last_dot :: "string \<Rightarrow> string" where
  "before_last_dot b = rev (drop 1 (dropWhile (\<lambda>c. c \<noteq> CHR ''.'') (rev b)))"

definition extname :: "string \<Rightarrow> string" where
  "extname p =
     (let b = last_component p in
      if CHR ''.'' \<in> set b \<and> before_last_dot b \<noteq> [] \<and> b \<noteq> ''..''
      then CHR ''.'' # after_last_dot b
      else [])"

text \<open>
  The exported function of lib/platform.js. Its first line is
  \<^verbatim>\<open>const extension = extname(fileName).slice(1)\<close>. The JavaScript result is a string
  or \<^verbatim>\<open>false\<close>; \<open>None\<close> is \<^verbatim>\<open>false\<close>.
\<close>

definition extension :: "string \<Rightarrow> string" where
  "extension fileName = drop 1 (extname fileName)"

definition checkPlatform :: "string \<Rightarrow> string option" where
  "checkPlatform fileName =
     (let extension = extension fileName;
          arch = (if str_includes fileName ''arm64'' \<or> str_includes fileName ''aarch64''
                  then ''_arm64'' else '''')
      in if extension = ''dmg'' then Some (''darwin'' @ arch)
         else if extension = ''AppImage'' then Some (''linux'' @ arch)
         else if (str_includes fileName ''mac'' \<or> str_includes fileName ''darwin'')
                 \<and> extension = ''zip''
              then Some (''darwin'' @ arch)
         else if extension = ''exe'' then Some ''win32''
         else if extension \<in> set [''rpm'', ''deb''] then Some (extension @ arch)
         else None)"

section \<open>Alias Resolver (lib/aliases.js)\<close>

type_synonym alias_table = "(string \<times> string list) list"

definition base_aliases :: alias_table where
  "base_aliases =
     [(''darwin'', [''mac'', ''macos'', ''osx'', ''dmg'']),
      (''win32'', [''windows'', ''win'', ''exe'']),
      (''linux'', [''AppImage'', ''appimage'']),
      (''deb'', [''debian'']),
      (''rpm'', [''fedora'']),
      (''exe'', [''win32'', ''windows'', ''win''])]"

text \<open>
  The load-time loop over \<^verbatim>\<open>Object.keys(aliases)\<close>: the keys are listed once, before
  the loop, so the keys it adds are not visited.
\<close>

fun derive_arm64 :: "string list \<Rightarrow> alias_table \<Rightarrow> alias_table" where
  "derive_arm64 [] tbl = tbl"
| "derive_arm64 (existingPlatform # ks) tbl =
     derive_arm64 ks
       (case obj_get tbl existingPlatform of
          None \<Rightarrow> tbl
        | Some lst \<Rightarrow>
            obj_set (existingPlatform @ ''_arm64'')
              (map (\<lambda>alias. alias @ ''_arm64'') lst) tbl)"

definition aliases :: alias_table where
  "aliases = derive_arm64 (map fst base_aliases) base_aliases"

text \<open>The loop of the resolver over the table, in key order; the first list that holds the token wins.\<close>

fun scan_aliases :: "alias_table \<Rightarrow> string \<Rightarrow> string option" where
  "scan_aliases [] platform = None"
| "scan_aliases ((guess, lst) # rest) platform =
     (if platform \<in> set lst then Some guess else scan_aliases rest platform)"

text \<open>
  The exported function of lib/aliases.js; \<open>None\<close> is \<^verbatim>\<open>false\<close>. The first test is
  \<^verbatim>\<open>typeof aliases[platform] !== 'undefined'\<close>, which also holds for an inherited property.
\<close>

definition checkAlias :: "string \<Rightarrow> string option" where
  "checkAlias platform =
     (if obj_get aliases platform \<noteq> None \<or> platform \<in> set inherited_properties
      then Some platform
      else scan_aliases aliases platform)"

section \<open>Snapshot Cache (lib/cache.js, src/unnamed/part_001)\<close>

subsection \<open>Data\<close>

text \<open>A raw asset of a release, as the upstream host lists it.\<close>

record raw_asset =
  asset_name :: string
  browser_download_url :: string
  asset_url :: string
  asset_content_type :: string
  asset_size :: nat

text \<open>
  A release of the list, with the properties the method reads; the host sends the tag,
  the body and the date as strings. \<open>assets\<close> is \<open>None\<close> when the property is missing
  or is not an array.
\<close>

record release =
  tag_name :: string
  body :: string
  published_at :: string
  draft :: bool
  prerelease :: bool
  assets :: "raw_asset list option"

text \<open>
  An entry of \<^verbatim>\<open>latest.platforms\<close>. \<open>sha512\<close> and \<open>blockMapSize\<close> are absent
  (\<open>None\<close>) until a manifest entry assigns them; an assignment of \<open>undefined\<close> is
  \<open>None\<close> too.
\<close>

record platform_asset =
  name :: string
  api_url :: string
  url :: string
  content_type :: string
  size_mb :: nat
  sha512 :: "string option"
  blockMapSize :: "nat option"

type_synonym platform_map = "(string \<times> platform_asset) list"

type_synonym yaml_files = "(string \<times> string) list"

record files_obj =
  RELEASES :: "string option"
  yamlFiles :: "yaml_files option"

text \<open>The object \<^verbatim>\<open>this.latest\<close>; the constructor's \<^verbatim>\<open>{}\<close> has every property absent.\<close>

record snapshot =
  version :: "string option"
  notes_text :: "string option"
  pub_date :: "string option"
  platforms :: "platform_map option"
  files :: "files_obj option"

definition empty_snapshot :: snapshot where
  "empty_snapshot =
     \<lparr>version = None, notes_text = None, pub_date = None, platforms = None, files = None\<rparr>"

text \<open>The mutable state of a \<^verbatim>\<open>Cache\<close>; \<open>lastUpdate\<close> is \<open>null\<close> or a time in milliseconds.\<close>

record cache =
  latest :: snapshot
  lastUpdate :: "int option"

definition new_cache :: cache where
  "new_cache = \<lparr>latest = empty_snapshot, lastUpdate = None\<rparr>"

text \<open>
  The configuration. \<open>interval\<close> is in minutes; \<open>pre\<close> and \<open>token\<close> are environment
  strings or \<open>undefined\<close>. The token only adds a header to the requests; what the host
  answers to them is part of \<open>env\<close> below.
\<close>

record config =
  account :: string
  repository :: string
  pre :: "string option"
  token :: "string option"
  interval :: "nat option"

text \<open>An entry of a manifest's \<^verbatim>\<open>files\<close> list; a missing property is \<open>None\<close>.\<close>

record manifest_entry =
  file_url :: "string option"
  file_sha512 :: "string option"
  file_blockMapSize :: "nat option"

datatype yaml_doc = YamlError | YamlNoFiles | YamlFiles "manifest_entry list"

datatype json_data = NotAnArray | ReleaseList "release list"

record response =
  status :: nat
  body_text :: string

datatype error = TransportError | BadStatus nat | InvalidJson | NoNupkg

text \<open>
  What the program takes from outside. \<open>net u i\<close> is the answer to the \<open>i\<close>-th attempt
  (from 0) of one fetch of the address \<open>u\<close>, \<open>None\<close> when the transport fails.
  \<open>json_of\<close> is \<^verbatim>\<open>response.json()\<close> on a body (\<open>None\<close> when it throws), \<open>yaml_load\<close> is
  \<^verbatim>\<open>yaml.load\<close> followed by the test \<^verbatim>\<open>doc && doc.files\<close>, \<open>nupkg_rewrite\<close> is the rewriting
  of the package names in a RELEASES document (\<open>None\<close> when no name is found and the
  function throws), and \<open>round_mb\<close> is the floating-point expression
  \<^verbatim>\<open>Math.round(size / 1000000 * 10) / 10\<close>, in tenths of a megabyte.
\<close>

record env =
  net :: "string \<Rightarrow> nat \<Rightarrow> response option"
  json_of :: "string \<Rightarrow> json_data option"
  yaml_load :: "string \<Rightarrow> yaml_doc"
  nupkg_rewrite :: "string \<Rightarrow> string \<Rightarrow> string option"
  round_mb :: "nat \<Rightarrow> nat"

subsection \<open>Fetching with retry\<close>

text \<open>
  \<^verbatim>\<open>retry(fn, { retries: n })\<close>: \<open>fn\<close> runs again after each failure, at most \<open>n\<close> more
  times; the error of the last attempt is the one thrown.
\<close>

fun retry_from :: "(nat \<Rightarrow> error + 'a) \<Rightarrow> nat \<Rightarrow> nat \<Rightarrow> error + 'a" where
  "retry_from fn i 0 = fn i"
| "retry_from fn i (Suc retries) =
     (case fn i of Inr r \<Rightarrow> Inr r | Inl e \<Rightarrow> retry_from fn (Suc i) retries)"

definition retry :: "(nat \<Rightarrow> error + 'a) \<Rightarrow> nat \<Rightarrow> error + 'a" where
  "retry fn retries = retry_from fn 0 retries"

text \<open>The function both retry loops run: a fetch that throws unless the status is 200.\<close>

definition fetch_ok :: "env \<Rightarrow> string \<Rightarrow> nat \<Rightarrow> error + response" where
  "fetch_ok w u i =
     (case net w u i of
        None \<Rightarrow> Inl TransportError
      | Some r \<Rightarrow> if status r \<noteq> 200 then Inl (BadStatus (status r)) else Inr r)"

text \<open>
  \<^verbatim>\<open>cacheReleaseList\<close>: the fetch under retry, then the rewriting of the document, which
  throws when the document names no package.
\<close>

definition cacheReleaseList :: "env \<Rightarrow> string \<Rightarrow> error + string" where
  "cacheReleaseList w u =
     (case retry (fetch_ok w u) 3 of
        Inl e \<Rightarrow> Inl e
      | Inr r \<Rightarrow>
          (case nupkg_rewrite w u (body_text r) of
             None \<Rightarrow> Inl NoNupkg
           | Some content \<Rightarrow> Inr content))"

subsection \<open>The asset loop\<close>

text \<open>
  The state of the loop over \<^verbatim>\<open>release.assets\<close>: \<^verbatim>\<open>this.latest\<close>, the local
  \<^verbatim>\<open>yamlFiles\<close>, and the download addresses requested so far.
\<close>

type_synonym loop_state = "snapshot \<times> yaml_files \<times> string list"

definition files_or_empty :: "snapshot \<Rightarrow> files_obj" where
  "files_or_empty l =
     (case files l of None \<Rightarrow> \<lparr>RELEASES = None, yamlFiles = None\<rparr> | Some f \<Rightarrow> f)"

definition platforms_of :: "snapshot \<Rightarrow> platform_map" where
  "platforms_of l = (case platforms l of None \<Rightarrow> [] | Some ps \<Rightarrow> ps)"

definition process_asset :: "env \<Rightarrow> raw_asset \<Rightarrow> loop_state \<Rightarrow> loop_state" where
  "process_asset w asset st =
     (case st of (l, yamls, requested) \<Rightarrow>
        if asset_name asset = ''RELEASES'' then
          (case cacheReleaseList w (browser_download_url asset) of
             Inl err \<Rightarrow>
               (l\<lparr>files := Some (files_or_empty l)\<rparr>, yamls,
                requested @ [browser_download_url asset])
           | Inr content \<Rightarrow>
               (l\<lparr>files := Some ((files_or_empty l)\<lparr>RELEASES := Some content\<rparr>)\<rparr>, yamls,
                requested @ [browser_download_url asset]))
        else if endsWith (asset_name asset) ''.yml'' then
          (case net w (browser_download_url asset) 0 of
             None \<Rightarrow> (l, yamls, requested @ [browser_download_url asset])
           | Some r \<Rightarrow>
               (l, obj_set (asset_name asset) (body_text r) yamls,
                requested @ [browser_download_url asset]))
        else
          (case checkPlatform (asset_name asset) of
             None \<Rightarrow> (l, yamls, requested)
           | Some platform \<Rightarrow>
               if platform = [] then (l, yamls, requested)
               else
                 (l\<lparr>platforms := Some (obj_set platform
                      \<lparr>name = asset_name asset,
                       api_url = asset_url asset,
                       url = browser_download_url asset,
                       content_type = asset_content_type asset,
                       size_mb = round_mb w (asset_size asset),
                       sha512 = None,
                       blockMapSize = None\<rparr>
                      (platforms_of l))\<rparr>, yamls, requested)))"

fun process_assets :: "env \<Rightarrow> raw_asset list \<Rightarrow> loop_state \<Rightarrow> loop_state" where
  "process_assets w [] st = st"
| "process_assets w (asset # rest) st = process_assets w rest (process_asset w asset st)"

subsection \<open>Applying the manifests\<close>

text \<open>
  The inner loop over \<^verbatim>\<open>Object.entries(this.latest.platforms)\<close>: the first asset whose
  name is the file name takes the entry's fields, and the loop breaks. The three copies
  of the loop differ in one line, the assignment of \<open>blockMapSize\<close> for
  \<^verbatim>\<open>latest-linux.yml\<close>; the flag \<open>linux\<close> selects it.
\<close>

fun attach :: "bool \<Rightarrow> manifest_entry \<Rightarrow> string \<Rightarrow> platform_map \<Rightarrow> platform_map" where
  "attach linux file fileName [] = []"
| "attach linux file fileName ((platform, dat) # rest) =
     (if name dat = fileName
      then (platform,
            dat\<lparr>sha512 := file_sha512 file,
                blockMapSize := (if linux then file_blockMapSize file else blockMapSize dat)\<rparr>)
           # rest
      else (platform, dat) # attach linux file fileName rest)"

text \<open>One turn of the loop over the manifest's files; \<^verbatim>\<open>if (fileName)\<close> skips a missing or empty url.\<close>

definition apply_entry :: "bool \<Rightarrow> manifest_entry \<Rightarrow> platform_map \<Rightarrow> platform_map" where
  "apply_entry linux file ps =
     (case file_url file of
        None \<Rightarrow> ps
      | Some fileName \<Rightarrow> if fileName = [] then ps else attach linux file fileName ps)"

fun apply_files :: "bool \<Rightarrow> manifest_entry list \<Rightarrow> platform_map \<Rightarrow> platform_map" where
  "apply_files linux [] ps = ps"
| "apply_files linux (file # rest) ps = apply_files linux rest (apply_entry linux file ps)"

definition apply_manifest ::
    "env \<Rightarrow> bool \<Rightarrow> string \<Rightarrow> yaml_files \<Rightarrow> platform_map \<Rightarrow> platform_map" where
  "apply_manifest w linux key yamls ps =
     (case obj_get yamls key of
        None \<Rightarrow> ps
      | Some text \<Rightarrow>
          if text = [] then ps
          else (case yaml_load w text of
                  YamlError \<Rightarrow> ps
                | YamlNoFiles \<Rightarrow> ps
                | YamlFiles fs \<Rightarrow> apply_files linux fs ps))"

text \<open>The block after the loop, entered when at least one manifest text was fetched.\<close>

definition apply_yaml_files :: "env \<Rightarrow> yaml_files \<Rightarrow> snapshot \<Rightarrow> snapshot" where
  "apply_yaml_files w yamls l =
     (if yamls = [] then l
      else
        l\<lparr>files := Some ((files_or_empty l)\<lparr>yamlFiles := Some yamls\<rparr>),
          platforms := Some
            (apply_manifest w False ''latest.yml'' yamls
              (apply_manifest w True ''latest-linux.yml'' yamls
                (apply_manifest w False ''latest-mac.yml'' yamls (platforms_of l))))\<rparr>)"

subsection \<open>refreshCache, isOutdated, loadCache\<close>

text \<open>\<^verbatim>\<open>s.trim()\<close>, on the ASCII white space.\<close>

definition is_space :: "char \<Rightarrow> bool" where
  "is_space c = (c \<in> set [CHR '' '', CHR 0x09, CHR 0x0A, CHR 0x0B, CHR 0x0C, CHR 0x0D])"

definition trim :: "string \<Rightarrow> string" where
  "trim s = rev (dropWhile is_space (rev (dropWhile is_space s)))"

definition releases_url :: "config \<Rightarrow> string" where
  "releases_url cfg =
     ''https://api.github.com/repos/'' @ trim (account cfg) @ ''/'' @ trim (repository cfg)
       @ ''/releases?per_page=100''"

text \<open>\<^verbatim>\<open>Boolean(pre)\<close> on a string or \<open>undefined\<close>.\<close>

definition truthy :: "string option \<Rightarrow> bool" where
  "truthy v = (case v of None \<Rightarrow> False | Some s \<Rightarrow> s \<noteq> [])"

definition selects :: "config \<Rightarrow> release \<Rightarrow> bool" where
  "selects cfg item = (\<not> draft item \<and> (truthy (pre cfg) = prerelease item))"

text \<open>How the promise of an async method settles.\<close>

datatype completion = Resolved | Rejected error

text \<open>
  \<^verbatim>\<open>refreshCache\<close>. \<open>now\<close> is the value \<^verbatim>\<open>Date.now()\<close> has when the method assigns
  \<open>lastUpdate\<close>. The result is how the promise settles, the asset addresses the cycle
  downloaded, and the state it leaves.
\<close>

definition refreshCache :: "config \<Rightarrow> env \<Rightarrow> int \<Rightarrow> cache \<Rightarrow> completion \<times> string list \<times> cache" where
  "refreshCache cfg w now s =
     (case retry (fetch_ok w (releases_url cfg)) 3 of
        Inl e \<Rightarrow> (Rejected e, [], s)
      | Inr resp \<Rightarrow>
          (case json_of w (body_text resp) of
             None \<Rightarrow> (Rejected InvalidJson, [], s)
           | Some NotAnArray \<Rightarrow> (Resolved, [], s)
           | Some (ReleaseList dat) \<Rightarrow>
               if dat = [] then (Resolved, [], s)
               else
                 (case find (selects cfg) dat of
                    None \<Rightarrow> (Resolved, [], s)
                  | Some rel \<Rightarrow>
                      (case assets rel of
                         None \<Rightarrow> (Resolved, [], s)
                       | Some assts \<Rightarrow>
                           if version (latest s) = Some (tag_name rel)
                           then (Resolved, [], s\<lparr>lastUpdate := Some now\<rparr>)
                           else
                             (case process_assets w assts
                                     ((latest s)\<lparr>version := Some (tag_name rel),
                                                 notes_text := Some (body rel),
                                                 pub_date := Some (published_at rel),
                                                 platforms := Some []\<rparr>, [], []) of
                                (l, yamls, requested) \<Rightarrow>
                                  (Resolved, requested,
                                   \<lparr>latest = apply_yaml_files w yamls l,
                                    lastUpdate = Some now\<rparr>))))))"

text \<open>\<^verbatim>\<open>ms(interval + 'm')\<close> for a whole number of minutes; the default interval is 15.\<close>

definition ms_minutes :: "nat \<Rightarrow> int" where
  "ms_minutes n = int n * 60000"

definition isOutdated :: "config \<Rightarrow> int \<Rightarrow> cache \<Rightarrow> bool" where
  "isOutdated cfg clock s =
     (case lastUpdate s of
        None \<Rightarrow> False
      | Some lu \<Rightarrow>
          lu \<noteq> 0 \<and>
          clock - lu > ms_minutes (case interval cfg of None \<Rightarrow> 15 | Some n \<Rightarrow> n))"

text \<open>\<^verbatim>\<open>!lastUpdate\<close>: \<open>null\<close> and 0 are falsy.\<close>

definition never_updated :: "cache \<Rightarrow> bool" where
  "never_updated s = (case lastUpdate s of None \<Rightarrow> True | Some lu \<Rightarrow> lu = 0)"

text \<open>
  \<^verbatim>\<open>loadCache\<close>. \<open>clock\<close> is the time of the staleness test, \<open>now\<close> the time a refresh
  completes. The result is what the caller gets, a copy of \<^verbatim>\<open>latest\<close> or the error the
  promise rejects with, and the state left.
\<close>

definition loadCache :: "config \<Rightarrow> env \<Rightarrow> int \<Rightarrow> int \<Rightarrow> cache \<Rightarrow> (error + snapshot) \<times> cache" where
  "loadCache cfg w clock now s =
     (if never_updated s \<or> isOutdated cfg clock s
      then (case refreshCache cfg w now s of
              (Rejected e, requested, s') \<Rightarrow> (Inl e, s')
            | (Resolved, requested, s') \<Rightarrow> (Inr (latest s'), s'))
      else (Inr (latest s), s))"

section \<open>The specification's notions\<close>

subsection \<open>The priority algorithm of the Normalizer\<close>

text \<open>
  The specification's words, written without the program's functions. The pieces of a
  string between the occurrences of a separator, as \<^verbatim>\<open>s.split(c)\<close> gives them:
\<close>

fun split_at :: "char \<Rightarrow> string \<Rightarrow> string list" where
  "split_at c [] = [[]]"
| "split_at c (x # xs) =
     (if x = c then [] # split_at c xs
      else (case split_at c xs of [] \<Rightarrow> [[x]] | seg # segs \<Rightarrow> (x # seg) # segs))"

text \<open>The text after the last dot of a string (the whole string when it has no dot).\<close>

definition text_after_last_dot :: "string \<Rightarrow> string" where
  "text_after_last_dot s = last (split_at CHR ''.'' s)"

text \<open>
  The last path segment of a name: the last non-empty piece between slashes, which is
  the whole name when it has no slash.
\<close>

definition last_segment :: "string \<Rightarrow> string" where
  "last_segment p =
     (case filter (\<lambda>seg. seg \<noteq> []) (split_at CHR ''/'' p) of
        [] \<Rightarrow> []
      | seg # segs \<Rightarrow> last (seg # segs))"

text \<open>
  The extension of a file name: the text after the last dot of its last segment, and
  nothing when the segment has no dot or no character stands before its last dot.
\<close>

definition spec_extension :: "string \<Rightarrow> string" where
  "spec_extension f =
     (let b = last_segment f; e = text_after_last_dot b
      in if CHR ''.'' \<in> set b \<and> length e + 1 < length b then e else [])"

text \<open>
  The algorithm: an architecture suffix, then an ordered list of rules, each a condition
  with the key it yields; the first rule whose condition holds decides, and no rule means
  not recognized. A name contains a marker when the marker is a \<open>sublist\<close> of it.
\<close>

definition arch_suffix :: "string \<Rightarrow> string" where
  "arch_suffix f = (if sublist ''arm64'' f \<or> sublist ''aarch64'' f then ''_arm64'' else [])"

definition priority_rules :: "string \<Rightarrow> (bool \<times> string) list" where
  "priority_rules f =
     [(spec_extension f = ''dmg'', ''darwin'' @ arch_suffix f),
      (spec_extension f = ''AppImage'', ''linux'' @ arch_suffix f),
      (spec_extension f = ''zip'' \<and> (sublist ''mac'' f \<or> sublist ''darwin'' f),
       ''darwin'' @ arch_suffix f),
      (spec_extension f = ''exe'', ''win32''),
      (spec_extension f = ''deb'' \<or> spec_extension f = ''rpm'',
       spec_extension f @ arch_suffix f)]"

definition normalizer_spec :: "string \<Rightarrow> string option" where
  "normalizer_spec f = map_option snd (find fst (priority_rules f))"

text \<open>The literals the extension is compared with, and what a case variant of one is.\<close>

definition compared_literals :: "string list" where
  "compared_literals = [''dmg'', ''AppImage'', ''zip'', ''exe'', ''rpm'', ''deb'']"

definition lower_table :: "(char \<times> char) list" where
  "lower_table = zip ''ABCDEFGHIJKLMNOPQRSTUVWXYZ'' ''abcdefghijklmnopqrstuvwxyz''"

definition to_lower :: "char \<Rightarrow> char" where
  "to_lower c = (case map_of lower_table c of None \<Rightarrow> c | Some d \<Rightarrow> d)"

definition case_variant :: "string \<Rightarrow> string \<Rightarrow> bool" where
  "case_variant e lit = (map to_lower e = map to_lower lit)"

subsection \<open>Declared owners of aliases\<close>

text \<open>The first key, in declaration order, whose alias list declares the token.\<close>

definition declared_owner :: "alias_table \<Rightarrow> string \<Rightarrow> string option" where
  "declared_owner tbl a = map_option fst (find (\<lambda>entry. a \<in> set (snd entry)) tbl)"

text \<open>The aliases of the base table that are not keys of it.\<close>

definition plain_aliases :: "string list" where
  "plain_aliases =
     [''mac'', ''macos'', ''osx'', ''dmg'', ''windows'', ''win'', ''AppImage'', ''appimage'',
      ''debian'', ''fedora'']"

subsection \<open>Refresh cycles\<close>

text \<open>An attempt of a fetch fails: the transport fails or the status is not 200.\<close>

definition attempt_fails :: "env \<Rightarrow> string \<Rightarrow> nat \<Rightarrow> bool" where
  "attempt_fails w u i = (case net w u i of None \<Rightarrow> True | Some r \<Rightarrow> status r \<noteq> 200)"


text \<open>The part of an entry of the platform map that no manifest touches.\<close>

definition asset_view ::
    "string \<times> platform_asset \<Rightarrow> string \<times> string \<times> string \<times> string \<times> string \<times> nat" where
  "asset_view entry =
     (fst entry, name (snd entry), api_url (snd entry), url (snd entry),
      content_type (snd entry), size_mb (snd entry))"



text \<open>The state a refresh leaves.\<close>

definition cache_after :: "completion \<times> string list \<times> cache \<Rightarrow> cache" where
  "cache_after r = snd (snd r)"

text \<open>
  The state after refresh cycles at the given times, one after the other, against one
  host, from the state the constructor leaves.
\<close>

definition refreshes :: "config \<Rightarrow> env \<Rightarrow> int list \<Rightarrow> cache" where
  "refreshes cfg w nows = foldl (\<lambda>s now. cache_after (refreshCache cfg w now s)) new_cache nows"

subsection \<open>What a manifest does to the platform map\<close>




subsection \<open>Concrete configurations, hosts and states\<close>

definition example_config :: config where
  "example_config =
     \<lparr>account = ''KatsuraLab'', repository = ''argos'', pre = None, token = None,
      interval = None\<rparr>"

text \<open>A host that cannot be reached, and one that answers every request with status 200.\<close>

definition offline :: env where
  "offline =
     \<lparr>net = (\<lambda>u i. None), json_of = (\<lambda>b. None), yaml_load = (\<lambda>t. YamlError),
      nupkg_rewrite = (\<lambda>u c. None), round_mb = (\<lambda>n. n div 100000)\<rparr>"

definition serving :: "json_data \<Rightarrow> env" where
  "serving parsed =
     \<lparr>net = (\<lambda>u i. Some \<lparr>status = 200, body_text = ''files: []''\<rparr>),
      json_of = (\<lambda>b. Some parsed), yaml_load = (\<lambda>t. YamlFiles []),
      nupkg_rewrite = (\<lambda>u c. None), round_mb = (\<lambda>n. n div 100000)\<rparr>"

definition dmg_v1 :: platform_asset where
  "dmg_v1 =
     \<lparr>name = ''Argos-Desktop-1.0.0.dmg'', api_url = ''https://api.example/assets/1'',
      url = ''https://dl.example/v1/Argos-Desktop-1.0.0.dmg'',
      content_type = ''application/x-apple-diskimage'', size_mb = 812,
      sha512 = Some ''c2hhLXYx'', blockMapSize = None\<rparr>"

definition appimage_v1 :: platform_asset where
  "appimage_v1 =
     \<lparr>name = ''Argos-Desktop-1.0.0.AppImage'', api_url = ''https://api.example/assets/2'',
      url = ''https://dl.example/v1/Argos-Desktop-1.0.0.AppImage'',
      content_type = ''application/octet-stream'', size_mb = 954,
      sha512 = None, blockMapSize = None\<rparr>"

text \<open>A cache that holds release v1.0.0, refreshed at time 1000.\<close>

definition cached_v1 :: cache where
  "cached_v1 =
     \<lparr>latest =
        \<lparr>version = Some ''v1.0.0'', notes_text = Some ''first release'',
         pub_date = Some ''2024-01-01T00:00:00Z'',
         platforms = Some [(''darwin'', dmg_v1), (''linux'', appimage_v1)],
         files = Some \<lparr>RELEASES = Some ''ABCD argos-1.0.0-full.nupkg 1024'',
                       yamlFiles = Some [(''latest-mac.yml'', ''version: 1.0.0'')]\<rparr>\<rparr>,
      lastUpdate = Some 1000\<rparr>"

text \<open>A release v2.0.0 with one installer.\<close>

definition installer_v2 :: raw_asset where
  "installer_v2 =
     \<lparr>asset_name = ''Argos-Desktop-Setup-2.0.0.exe'',
      browser_download_url = ''https://dl.example/v2/Argos-Desktop-Setup-2.0.0.exe'',
      asset_url = ''https://api.example/assets/7'',
      asset_content_type = ''application/octet-stream'',
      asset_size = 73400320\<rparr>"

definition release_v2 :: release where
  "release_v2 =
     \<lparr>tag_name = ''v2.0.0'', body = ''second release'',
      published_at = ''2024-06-01T00:00:00Z'', draft = False, prerelease = False,
      assets = Some [installer_v2]\<rparr>"





section \<open>The Normalizer\<close>

lemmas extension_defs =
  extension_def extname_def last_component_def after_last_dot_def before_last_dot_def

text \<open>
  On a plain file name (no slash) the extension is the text after the last dot, and it is
  empty when nothing stands before that dot or the name has no dot.
\<close>

lemma extension_plain_name:
  assumes "CHR ''/'' \<notin> set f"
  shows "extension f =
           (if CHR ''.'' \<in> set f \<and> before_last_dot f \<noteq> [] then after_last_dot f else [])"
proof -
  have no_slash: "\<forall>c \<in> set (rev f). c \<noteq> CHR ''/''"
    using assms by auto
  then have dw: "dropWhile (\<lambda>c. c = CHR ''/'') (rev f) = rev f"
    by (cases "rev f") auto
  from no_slash have tw: "takeWhile (\<lambda>c. c \<noteq> CHR ''/'') (rev f) = rev f"
    by (simp add: takeWhile_eq_all_conv)
  have b: "last_component f = f"
    unfolding last_component_def dw tw by simp
  show ?thesis
    by (auto simp: extension_def extname_def b after_last_dot_def before_last_dot_def)
qed

subsection \<open>The program's extension and the specification's\<close>

lemma split_at_nonempty [simp]: "split_at c s \<noteq> []"
  by (induction s) (auto split: list.splits)

lemma split_at_sep_end: "split_at c (xs @ [c]) = split_at c xs @ [[]]"
  by (induction xs) (auto split: list.splits)

lemma split_at_snoc:
  "x \<noteq> c \<Longrightarrow> split_at c (xs @ [x]) = butlast (split_at c xs) @ [last (split_at c xs) @ [x]]"
proof (induction xs)
  case Nil
  then show ?case by simp
next
  case (Cons y ys)
  then show ?case
    by (cases "split_at c ys") (auto split: list.splits)
qed

lemma last_split_at: "last (split_at c s) = rev (takeWhile (\<lambda>x. x \<noteq> c) (rev s))"
proof (induction s rule: rev_induct)
  case Nil
  show ?case by simp
next
  case (snoc x xs)
  show ?case
  proof (cases "x = c")
    case True
    then show ?thesis by (simp add: split_at_sep_end)
  next
    case False
    with snoc show ?thesis by (simp add: split_at_snoc)
  qed
qed

lemma text_after_last_dot_eq: "text_after_last_dot s = after_last_dot s"
  by (simp add: text_after_last_dot_def after_last_dot_def last_split_at)

lemma last_segment_eq: "last_segment p = last_component p"
proof (induction p rule: rev_induct)
  case Nil
  show ?case by (simp add: last_segment_def last_component_def)
next
  case (snoc x xs)
  show ?case
  proof (cases "x = CHR ''/''")
    case True
    with snoc show ?thesis
      by (simp add: last_segment_def last_component_def split_at_sep_end)
  next
    case False
    have "filter (\<lambda>seg. seg \<noteq> []) (split_at CHR ''/'' (xs @ [x]))
            = filter (\<lambda>seg. seg \<noteq> []) (butlast (split_at CHR ''/'' xs))
                @ [last (split_at CHR ''/'' xs) @ [x]]"
      using False by (simp add: split_at_snoc)
    moreover have "(case l of [] \<Rightarrow> [] | seg # segs \<Rightarrow> last (seg # segs))
                     = (if l = [] then [] else last l)" for l :: "string list"
      by (cases l) auto
    ultimately have "last_segment (xs @ [x]) = last (split_at CHR ''/'' xs) @ [x]"
      by (simp add: last_segment_def)
    moreover have "last_component (xs @ [x]) = rev (takeWhile (\<lambda>c. c \<noteq> CHR ''/'') (rev xs)) @ [x]"
      using False by (simp add: last_component_def)
    ultimately show ?thesis by (simp add: last_split_at)
  qed
qed

lemma around_last_dot:
  assumes "CHR ''.'' \<in> set b"
  shows "b = before_last_dot b @ [CHR ''.''] @ after_last_dot b"
proof -
  let ?P = "\<lambda>c. c \<noteq> CHR ''.''"
  from assms have "dropWhile ?P (rev b) \<noteq> []" by (simp add: dropWhile_eq_Nil_conv)
  then obtain y ys where d: "dropWhile ?P (rev b) = y # ys"
    by (cases "dropWhile ?P (rev b)") auto
  then have "\<not> ?P y" using hd_dropWhile [of ?P "rev b"] by fastforce
  then have y: "y = CHR ''.''" by simp
  have "rev b = takeWhile ?P (rev b) @ dropWhile ?P (rev b)" by simp
  then have "rev b = takeWhile ?P (rev b) @ CHR ''.'' # ys" using d y by simp
  then have "b = rev ys @ [CHR ''.''] @ rev (takeWhile ?P (rev b))"
    by (metis append_Cons append_Nil append_assoc rev.simps(2) rev_append rev_rev_ident)
  then show ?thesis using d by (simp add: before_last_dot_def after_last_dot_def)
qed

text \<open>
  What \<^verbatim>\<open>extname(fileName).slice(1)\<close> computes is the specification's extension: the
  text after the last dot of the last segment, nothing when no character stands before
  that dot.
\<close>

lemma spec_extension_eq: "spec_extension f = extension f"
proof (cases "CHR ''.'' \<in> set (last_component f)")
  case False
  then show ?thesis
    by (simp add: spec_extension_def extension_def extname_def last_segment_eq Let_def)
next
  case True
  let ?b = "last_component f"
  from around_last_dot [OF True]
  have len: "length ?b = length (before_last_dot ?b) + 1 + length (after_last_dot ?b)"
    by (metis length_append add.assoc length_Cons list.size(3) One_nat_def add.commute plus_1_eq_Suc)
  have dots: "?b = ''..'' \<Longrightarrow> after_last_dot ?b = []"
    by (simp add: after_last_dot_def)
  show ?thesis
    using True len dots
    by (auto simp: spec_extension_def extension_def extname_def last_segment_eq
          text_after_last_dot_eq Let_def)
qed

text \<open>\<^verbatim>\<open>startsWith\<close> and \<^verbatim>\<open>includes\<close> are the prefix and the sublist relations.\<close>

lemma startsWith_prefix: "startsWith s n \<longleftrightarrow> prefix n s"
  by (induction s n rule: startsWith.induct) auto

lemma str_includes_sublist: "str_includes s n \<longleftrightarrow> sublist n s"
  by (induction s) (auto simp: startsWith_prefix sublist_Cons_right)

subsection \<open>The priority algorithm\<close>

text \<open>
  C1, as the claim states it, fails: the text after the last dot of \<^verbatim>\<open>.dmg\<close> is
  \<open>dmg\<close>, and the Normalizer does not recognize the name.
\<close>

theorem checkPlatform_dotfile_counterexample:
  "text_after_last_dot ''.dmg'' = ''dmg'' \<and> checkPlatform ''.dmg'' = None"
  by (simp add: text_after_last_dot_def checkPlatform_def extension_defs)

text \<open>
  C1, amended. For every file name the Normalizer returns exactly the result of the
  priority algorithm, first match wins, where the extension of the name is the text after
  the last dot of its last path segment and is empty when that segment has no dot or no
  character stands before its last dot: with the suffix \<open>_arm64\<close> when the name contains
  \<open>arm64\<close> or \<open>aarch64\<close> and the empty suffix otherwise, the result is \<open>darwin\<close> +
  suffix for the extension \<open>dmg\<close>, else \<open>linux\<close> + suffix for \<open>AppImage\<close>, else
  \<open>darwin\<close> + suffix for \<open>zip\<close> in a name containing \<open>mac\<close> or \<open>darwin\<close>, else the
  bare \<open>win32\<close> for \<open>exe\<close>, else the extension + suffix for \<open>deb\<close> and \<open>rpm\<close>, else
  the not-recognized signal \<^verbatim>\<open>false\<close>; the result is never the empty string.
\<close>

theorem checkPlatform_priority:
  "checkPlatform f = normalizer_spec f \<and> checkPlatform f \<noteq> Some ''''"
proof -
  have ext: "extension f = spec_extension f"
    by (simp add: spec_extension_eq)
  have arch: "(str_includes f ''arm64'' \<or> str_includes f ''aarch64'')
              = (sublist ''arm64'' f \<or> sublist ''aarch64'' f)"
    by (simp add: str_includes_sublist)
  have mac: "(str_includes f ''mac'' \<or> str_includes f ''darwin'')
             = (sublist ''mac'' f \<or> sublist ''darwin'' f)"
    by (simp add: str_includes_sublist)
  show ?thesis
    unfolding checkPlatform_def normalizer_spec_def priority_rules_def arch_suffix_def
      ext arch mac Let_def
    by simp
qed

text \<open>The table of test-platform-detection.js, file names first.\<close>

lemma platform_detection_tests:
  "checkPlatform ''Argos-Desktop-1.2.0.dmg'' = Some ''darwin''"
  "checkPlatform ''Argos-Desktop-1.2.0-arm64.dmg'' = Some ''darwin_arm64''"
  "checkPlatform ''Argos-Desktop-1.2.0-mac.zip'' = Some ''darwin''"
  "checkPlatform ''Argos-Desktop-1.2.0.AppImage'' = Some ''linux''"
  "checkPlatform ''Argos-Desktop-1.2.0-arm64.AppImage'' = Some ''linux_arm64''"
  "checkPlatform ''argos-desktop_1.2.0_amd64.deb'' = Some ''deb''"
  "checkPlatform ''argos-desktop-1.2.0.x86_64.rpm'' = Some ''rpm''"
  "checkPlatform ''Argos-Desktop-Setup-1.2.0.exe'' = Some ''win32''"
  "checkPlatform ''Argos-Desktop-1.2.0-win.exe'' = Some ''win32''"
  by (simp_all add: checkPlatform_def extension_defs)

text \<open>Names the Normalizer does not recognize.\<close>

lemma platform_not_recognized:
  "checkPlatform ''solaris'' = None"
  "checkPlatform ''.dmg'' = None"
  "checkPlatform ''Argos-Desktop-1.2.0.zip'' = None"
  "checkPlatform ''latest.yml'' = None"
  by (simp_all add: checkPlatform_def extension_defs)

lemma checkPlatform_unknown_extension:
  "extension f \<notin> set compared_literals \<Longrightarrow> checkPlatform f = None"
  by (simp add: checkPlatform_def compared_literals_def Let_def)

lemma literal_variants:
  "\<forall>l \<in> set compared_literals. \<forall>l' \<in> set compared_literals. case_variant l' l \<longrightarrow> l' = l"
  by (simp add: compared_literals_def case_variant_def to_lower_def lower_table_def)

text \<open>
  C9, as the claim states it, fails: the extension \<open>DMG\<close> is a case variant of \<open>dmg\<close>,
  and the name with it is not recognized, while its lowercase form is a macOS asset.
\<close>

theorem checkPlatform_case_counterexample:
  "extension ''App-1.2.0.DMG'' = ''DMG'' \<and> case_variant ''DMG'' ''dmg''
   \<and> checkPlatform ''App-1.2.0.DMG'' = None
   \<and> checkPlatform ''App-1.2.0.dmg'' = Some ''darwin''"
  by (simp add: checkPlatform_def extension_defs case_variant_def to_lower_def lower_table_def)

text \<open>
  C9, amended. Extension matching is case-sensitive in every check of the Normalizer: a
  file name whose extension is a case variant of \<open>dmg\<close>, \<open>AppImage\<close>, \<open>zip\<close>, \<open>exe\<close>,
  \<open>deb\<close> or \<open>rpm\<close> without being that literal itself is not recognized; so
  \<open>app.appimage\<close> is not recognized as linux, and neither is \<open>App-1.2.0.DMG\<close> as darwin.
\<close>

theorem checkPlatform_case_sensitive:
  assumes "lit \<in> set compared_literals"
    and "case_variant (extension f) lit"
    and "extension f \<noteq> lit"
  shows "checkPlatform f = None"
proof -
  have "extension f \<notin> set compared_literals"
  proof
    assume "extension f \<in> set compared_literals"
    with assms(1,2) literal_variants have "extension f = lit" by blast
    with assms(3) show False by contradiction
  qed
  then show ?thesis by (rule checkPlatform_unknown_extension)
qed

theorem checkPlatform_case_sensitive_witness:
  "checkPlatform ''app.appimage'' = None"
proof -
  have "''AppImage'' \<in> set compared_literals" by (simp add: compared_literals_def)
  moreover have "extension ''app.appimage'' = ''appimage''" by (simp add: extension_defs)
  moreover have "case_variant ''appimage'' ''AppImage''"
    by (simp add: case_variant_def to_lower_def lower_table_def)
  ultimately show ?thesis
    using checkPlatform_case_sensitive [of "''AppImage''" "''app.appimage''"] by simp
qed

section \<open>The Alias Resolver\<close>

lemma aliases_table:
  "aliases =
     [(''darwin'', [''mac'', ''macos'', ''osx'', ''dmg'']),
      (''win32'', [''windows'', ''win'', ''exe'']),
      (''linux'', [''AppImage'', ''appimage'']),
      (''deb'', [''debian'']),
      (''rpm'', [''fedora'']),
      (''exe'', [''win32'', ''windows'', ''win'']),
      (''darwin_arm64'', [''mac_arm64'', ''macos_arm64'', ''osx_arm64'', ''dmg_arm64'']),
      (''win32_arm64'', [''windows_arm64'', ''win_arm64'', ''exe_arm64'']),
      (''linux_arm64'', [''AppImage_arm64'', ''appimage_arm64'']),
      (''deb_arm64'', [''debian_arm64'']),
      (''rpm_arm64'', [''fedora_arm64'']),
      (''exe_arm64'', [''win32_arm64'', ''windows_arm64'', ''win_arm64''])]"
  by (simp add: aliases_def base_aliases_def)

text \<open>The alias table of test-platform-detection.js, and an unknown token.\<close>

lemma alias_resolution_tests:
  "checkAlias ''mac'' = Some ''darwin''"
  "checkAlias ''macos'' = Some ''darwin''"
  "checkAlias ''osx'' = Some ''darwin''"
  "checkAlias ''dmg'' = Some ''darwin''"
  "checkAlias ''windows'' = Some ''win32''"
  "checkAlias ''win'' = Some ''win32''"
  "checkAlias ''exe'' = Some ''exe''"
  "checkAlias ''AppImage'' = Some ''linux''"
  "checkAlias ''appimage'' = Some ''linux''"
  "checkAlias ''solaris'' = None"
  by (simp_all add: checkAlias_def aliases_table inherited_properties_def)

lemma obj_get_key: "k \<in> set (map fst tbl) \<Longrightarrow> obj_get tbl k \<noteq> None"
  by (induction tbl) force+

text \<open>
  C8. The Alias Resolver is idempotent on canonical keys: the keys of the derived table
  are \<open>darwin\<close>, \<open>win32\<close>, \<open>linux\<close>, \<open>deb\<close>, \<open>rpm\<close>, \<open>exe\<close> and their \<open>_arm64\<close>
  forms, and the resolver returns each of them unchanged.
\<close>

theorem checkAlias_canonical:
  "map fst aliases =
     [''darwin'', ''win32'', ''linux'', ''deb'', ''rpm'', ''exe'', ''darwin_arm64'',
      ''win32_arm64'', ''linux_arm64'', ''deb_arm64'', ''rpm_arm64'', ''exe_arm64'']
   \<and> (\<forall>K \<in> set (map fst aliases). checkAlias K = Some K)"
proof
  show "map fst aliases =
     [''darwin'', ''win32'', ''linux'', ''deb'', ''rpm'', ''exe'', ''darwin_arm64'',
      ''win32_arm64'', ''linux_arm64'', ''deb_arm64'', ''rpm_arm64'', ''exe_arm64'']"
    by (simp add: aliases_table)
  show "\<forall>K \<in> set (map fst aliases). checkAlias K = Some K"
    using obj_get_key [of _ aliases] by (auto simp: checkAlias_def)
qed

theorem checkAlias_canonical_witness:
  "''linux_arm64'' \<in> set (map fst aliases) \<and> checkAlias ''linux_arm64'' = Some ''linux_arm64''"
proof -
  have k: "''linux_arm64'' \<in> set (map fst aliases)" by (simp add: aliases_table)
  from checkAlias_canonical k show ?thesis by blast
qed

text \<open>
  C7, as the claim states it, fails: \<open>exe\<close> is declared in the alias list of \<open>win32\<close>
  and of no earlier key, and the resolver returns \<open>exe\<close> for it, not \<open>win32\<close>.
\<close>

theorem checkAlias_exe_counterexample:
  "obj_get base_aliases ''win32'' = Some [''windows'', ''win'', ''exe'']
   \<and> declared_owner base_aliases ''exe'' = Some ''win32''
   \<and> checkAlias ''exe'' = Some ''exe''"
  by (simp add: base_aliases_def checkAlias_def aliases_table declared_owner_def)

lemma plain_aliases_cases:
  assumes "(k, lst) \<in> set base_aliases" and "a \<in> set lst" and "a \<notin> set (map fst base_aliases)"
  shows "a \<in> set plain_aliases"
proof -
  from assms(1) have "set lst \<subseteq> set plain_aliases \<union> set (map fst base_aliases)"
    unfolding base_aliases_def plain_aliases_def by (elim disjE | simp)+
  with assms(2,3) show ?thesis by blast
qed

lemma plain_aliases_resolve:
  "\<forall>a \<in> set plain_aliases.
     checkAlias a = declared_owner base_aliases a
     \<and> checkAlias (a @ ''_arm64'')
         = map_option (\<lambda>K. K @ ''_arm64'') (declared_owner base_aliases a)
     \<and> declared_owner base_aliases a \<noteq> None"
  by (simp add: plain_aliases_def base_aliases_def checkAlias_def aliases_table
        declared_owner_def inherited_properties_def)

text \<open>
  C7, amended. The Alias Resolver resolves every alias declared in the base table that
  is not itself a key of the table to its declared owner (the first key, in declaration
  order, whose list declares it), and the \<open>_arm64\<close> form of such an alias to the
  \<open>_arm64\<close> form of that owner. The aliases \<open>exe\<close> and \<open>win32\<close> are keys themselves
  and resolve to themselves.
\<close>

theorem checkAlias_declared:
  assumes "(k, lst) \<in> set base_aliases" and "a \<in> set lst" and "a \<notin> set (map fst base_aliases)"
  shows "checkAlias a = declared_owner base_aliases a
         \<and> checkAlias (a @ ''_arm64'')
             = map_option (\<lambda>K. K @ ''_arm64'') (declared_owner base_aliases a)
         \<and> declared_owner base_aliases a \<noteq> None"
  using plain_aliases_cases [OF assms] plain_aliases_resolve by blast

theorem checkAlias_declared_witness:
  "checkAlias ''windows'' = Some ''win32'' \<and> checkAlias ''windows_arm64'' = Some ''win32_arm64''"
proof -
  have "(''exe'', [''win32'', ''windows'', ''win'']) \<in> set base_aliases"
    by (simp add: base_aliases_def)
  moreover have "''windows'' \<in> set [''win32'', ''windows'', ''win'']" by simp
  moreover have "''windows'' \<notin> set (map fst base_aliases)" by (simp add: base_aliases_def)
  moreover have "declared_owner base_aliases ''windows'' = Some ''win32''"
    by (simp add: declared_owner_def base_aliases_def)
  ultimately show ?thesis
    using checkAlias_declared [of "''exe''" "[''win32'', ''windows'', ''win'']" "''windows''"]
    by simp
qed

section \<open>Refresh cycles that change nothing\<close>

lemma fetch_ok_fails: "attempt_fails w u i \<Longrightarrow> isl (fetch_ok w u i)"
  by (auto simp: attempt_fails_def fetch_ok_def split: option.splits)

lemma retry_from_all_fail:
  "\<forall>j\<le>n. isl (fn (i + j)) \<Longrightarrow> retry_from fn i n = fn (i + n)"
proof (induction n arbitrary: i)
  case 0
  show ?case by simp
next
  case (Suc n)
  from Suc.prems have first: "isl (fn i)" by (metis add.right_neutral le0)
  have rest: "\<forall>j\<le>n. isl (fn (Suc i + j))"
  proof (intro allI impI)
    fix j assume "j \<le> n"
    then have "Suc j \<le> Suc n" by simp
    with Suc.prems have "isl (fn (i + Suc j))" by blast
    then show "isl (fn (Suc i + j))" by simp
  qed
  from first obtain e where e: "fn i = Inl e" by (cases "fn i") auto
  from Suc.IH [OF rest] e show ?case by simp
qed

lemma retry_exhausted:
  assumes "\<forall>i<4. isl (fn i)"
  shows "\<exists>e. retry fn 3 = Inl e"
proof -
  have "\<forall>j\<le>3. isl (fn (0 + j))" using assms by simp
  then have "retry_from fn 0 3 = fn (0 + 3)" by (rule retry_from_all_fail)
  moreover have "isl (fn 3)" using assms by simp
  ultimately show ?thesis by (cases "fn 3") (auto simp: retry_def)
qed

lemma retry_first_ok: "fn 0 = Inr r \<Longrightarrow> retry fn 3 = Inr r"
  by (simp add: retry_def numeral_3_eq_3)

lemma serving_fetch [simp]:
  "retry (fetch_ok (serving parsed) u) 3 = Inr \<lparr>status = 200, body_text = ''files: []''\<rparr>"
  by (rule retry_first_ok) (simp add: fetch_ok_def serving_def)

lemma serving_json [simp]: "json_of (serving parsed) b = Some parsed"
  by (simp add: serving_def)

lemma serving_round_mb [simp]: "round_mb (serving parsed) n = n div 100000"
  by (simp add: serving_def)

text \<open>
  C4. In a refresh cycle whose release-list fetch fails at every attempt (the first and
  the three retries, each a transport failure or a status other than 200), the method
  rejects and the state is the one before: the snapshot with its version, platforms,
  checksums and files, and \<open>lastUpdate\<close>, which is not advanced.
\<close>

theorem refreshCache_fetch_exhausted:
  assumes "\<forall>i<4. attempt_fails w (releases_url cfg) i"
  shows "\<exists>e. refreshCache cfg w now s = (Rejected e, [], s)"
proof -
  from assms have "\<forall>i<4. isl (fetch_ok w (releases_url cfg) i)"
    by (simp add: fetch_ok_fails)
  then obtain e where "retry (fetch_ok w (releases_url cfg)) 3 = Inl e"
    using retry_exhausted by blast
  then show ?thesis by (simp add: refreshCache_def)
qed

theorem refreshCache_fetch_exhausted_witness:
  "\<exists>e. refreshCache example_config offline 2000000 cached_v1 = (Rejected e, [], cached_v1)"
  by (rule refreshCache_fetch_exhausted) (simp add: attempt_fails_def offline_def)

text \<open>
  C10. In a refresh cycle whose release-list fetch succeeds, when the parsed body is not
  an array or is an empty one, or no listed release is selected (draft false and the
  prerelease flag equal to \<^verbatim>\<open>Boolean(pre)\<close>), or the selected release has no assets
  array, the method returns and leaves the snapshot and \<open>lastUpdate\<close> as they were: the
  clock is not advanced.
\<close>

theorem refreshCache_no_release:
  assumes "retry (fetch_ok w (releases_url cfg)) 3 = Inr resp"
    and "json_of w (body_text resp) = Some parsed"
    and "parsed = NotAnArray \<or> parsed = ReleaseList []
         \<or> (\<exists>dat. parsed = ReleaseList dat \<and> (\<forall>item \<in> set dat. \<not> selects cfg item))
         \<or> (\<exists>dat rel. parsed = ReleaseList dat \<and> find (selects cfg) dat = Some rel
               \<and> assets rel = None)"
  shows "refreshCache cfg w now s = (Resolved, [], s)"
proof -
  have none: "find (selects cfg) dat = None" if "\<forall>item \<in> set dat. \<not> selects cfg item" for dat
    using that by (simp add: find_None_iff)
  from assms(3) consider
      "parsed = NotAnArray" | "parsed = ReleaseList []"
    | dat where "parsed = ReleaseList dat" "\<forall>item \<in> set dat. \<not> selects cfg item"
    | dat rel where "parsed = ReleaseList dat" "find (selects cfg) dat = Some rel" "assets rel = None"
    by blast
  then show ?thesis
  proof cases
    case 1
    with assms(1,2) show ?thesis by (simp add: refreshCache_def)
  next
    case 2
    with assms(1,2) show ?thesis by (simp add: refreshCache_def)
  next
    case 3
    with assms(1,2) none [OF 3(2)] show ?thesis by (simp add: refreshCache_def)
  next
    case 4
    with assms(1,2) show ?thesis by (simp add: refreshCache_def)
  qed
qed

theorem refreshCache_no_release_witness:
  "refreshCache example_config (serving (ReleaseList [release_v2\<lparr>draft := True\<rparr>])) 2000000 cached_v1
     = (Resolved, [], cached_v1)"
  by (rule refreshCache_no_release [where parsed = "ReleaseList [release_v2\<lparr>draft := True\<rparr>]"])
     (simp_all add: selects_def)

text \<open>
  After such a cycle the cache is as stale as before, so the next access refreshes
  again: a stale state stays stale as the clock moves on, and the caller of
  \<^verbatim>\<open>loadCache\<close> gets the snapshot as it was.
\<close>

lemma isOutdated_later:
  "isOutdated cfg clock s \<Longrightarrow> clock \<le> clock' \<Longrightarrow> isOutdated cfg clock' s"
  by (auto simp: isOutdated_def split: option.splits)

lemma loadCache_no_release:
  assumes "refreshCache cfg w now s = (Resolved, [], s)"
    and "never_updated s \<or> isOutdated cfg clock s"
  shows "loadCache cfg w clock now s = (Inr (latest s), s)"
  using assms by (simp add: loadCache_def)

section \<open>The asset loop and the manifests\<close>




subsection \<open>The platform map is classified while the manifests are applied\<close>












subsection \<open>What one manifest entry changes\<close>

text \<open>
  Whatever the map and the manifest, applying it changes no key, name, url, api_url,
  content_type or size, and keeps the order of the entries.
\<close>

lemma attach_view: "map asset_view (attach linux file fileName ps) = map asset_view ps"
  by (induction ps) (auto simp: asset_view_def)

lemma apply_entry_view: "map asset_view (apply_entry linux file ps) = map asset_view ps"
  by (simp add: apply_entry_def attach_view split: option.splits)

lemma apply_files_view: "map asset_view (apply_files linux fs ps) = map asset_view ps"
  by (induction fs arbitrary: ps) (simp_all add: apply_entry_view)

lemma apply_manifest_view:
  "map asset_view (apply_manifest w linux key yamls ps) = map asset_view ps"
  by (simp add: apply_manifest_def apply_files_view split: option.splits yaml_doc.splits)






subsection \<open>What a manifest changes\<close>




















section \<open>A refresh that caches a new version\<close>

lemma process_asset_header:
  "version (fst (process_asset w asset st)) = version (fst st)
   \<and> notes_text (fst (process_asset w asset st)) = notes_text (fst st)
   \<and> pub_date (fst (process_asset w asset st)) = pub_date (fst st)"
  by (cases st) (auto simp: process_asset_def split: sum.splits option.splits)

lemma process_assets_header:
  "version (fst (process_assets w assts st)) = version (fst st)
   \<and> notes_text (fst (process_assets w assts st)) = notes_text (fst st)
   \<and> pub_date (fst (process_assets w assts st)) = pub_date (fst st)"
  by (induction assts arbitrary: st) (simp_all add: process_asset_header)

lemma apply_yaml_files_header:
  "version (apply_yaml_files w yamls l) = version l
   \<and> notes_text (apply_yaml_files w yamls l) = notes_text l
   \<and> pub_date (apply_yaml_files w yamls l) = pub_date l"
  by (simp add: apply_yaml_files_def)

lemma exe_platform:
  "checkPlatform ''Argos-Desktop-Setup-2.0.0.exe'' = Some ''win32''"
  by (simp add: checkPlatform_def extension_defs)

lemma exe_not_yml: "\<not> endsWith ''Argos-Desktop-Setup-2.0.0.exe'' ''.yml''"
  by (simp add: endsWith_def)

text \<open>
  The method clears \<^verbatim>\<open>latest.platforms\<close> when it caches a new version and never clears
  \<^verbatim>\<open>latest.files\<close>: when no asset of the new release is named RELEASES or ends in
  \<^verbatim>\<open>.yml\<close>, the snapshot of the new version keeps the files entry it had.
\<close>

lemma process_asset_plain:
  assumes "asset_name asset \<noteq> ''RELEASES''" and "\<not> endsWith (asset_name asset) ''.yml''"
  shows "files (fst (process_asset w asset st)) = files (fst st)
         \<and> fst (snd (process_asset w asset st)) = fst (snd st)"
  using assms by (cases st) (auto simp: process_asset_def split: option.splits)

lemma process_assets_plain:
  "\<forall>asset \<in> set assts. asset_name asset \<noteq> ''RELEASES'' \<and> \<not> endsWith (asset_name asset) ''.yml''
   \<Longrightarrow> files (fst (process_assets w assts st)) = files (fst st)
       \<and> fst (snd (process_assets w assts st)) = fst (snd st)"
  by (induction assts arbitrary: st) (simp_all add: process_asset_plain)

lemma refreshCache_keeps_files:
  assumes "retry (fetch_ok w (releases_url cfg)) 3 = Inr resp"
    and "json_of w (body_text resp) = Some (ReleaseList dat)"
    and "find (selects cfg) dat = Some rel"
    and "assets rel = Some assts"
    and "version (latest s) \<noteq> Some (tag_name rel)"
    and "\<forall>asset \<in> set assts. asset_name asset \<noteq> ''RELEASES'' \<and> \<not> endsWith (asset_name asset) ''.yml''"
  shows "version (latest (cache_after (refreshCache cfg w now s))) = Some (tag_name rel)
         \<and> files (latest (cache_after (refreshCache cfg w now s))) = files (latest s)"
proof -
  let ?start = "((latest s)\<lparr>version := Some (tag_name rel),
      notes_text := Some (body rel), pub_date := Some (published_at rel),
      platforms := Some []\<rparr>, [] :: yaml_files, [] :: string list)"
  obtain l yamls requested where run: "process_assets w assts ?start = (l, yamls, requested)"
    by (cases "process_assets w assts ?start")
  from assms(3) have ne: "dat \<noteq> []" by auto
  have "files l = files (latest s) \<and> yamls = []"
    using process_assets_plain [OF assms(6), of w ?start, unfolded run] by simp
  moreover have "version l = Some (tag_name rel)"
    using process_assets_header [of w assts ?start, unfolded run] by simp
  ultimately show ?thesis
    using assms(1-5) ne run
    by (simp add: refreshCache_def cache_after_def apply_yaml_files_def)
qed

text \<open>
  C2. Every field of the snapshot should come from the one selected release, and after a
  refresh that caches a new version tag nothing of the previous release, such as a stored
  \<^verbatim>\<open>files.RELEASES\<close> or \<^verbatim>\<open>files.yamlFiles\<close>, should remain. The method does not keep
  to this: the cache holds release v1.0.0 with a RELEASES document and a manifest text,
  the host lists v2.0.0 with one installer and neither of the two, and the refresh that
  caches v2.0.0 leaves both entries of v1.0.0 in the snapshot.
\<close>

theorem refreshCache_stale_files:
  "version (latest (cache_after
      (refreshCache example_config (serving (ReleaseList [release_v2])) 2000000 cached_v1)))
     = Some ''v2.0.0''
   \<and> platforms (latest (cache_after
      (refreshCache example_config (serving (ReleaseList [release_v2])) 2000000 cached_v1)))
     = Some [(''win32'',
          \<lparr>name = ''Argos-Desktop-Setup-2.0.0.exe'', api_url = ''https://api.example/assets/7'',
           url = ''https://dl.example/v2/Argos-Desktop-Setup-2.0.0.exe'',
           content_type = ''application/octet-stream'', size_mb = 734, sha512 = None,
           blockMapSize = None\<rparr>)]
   \<and> files (latest (cache_after
      (refreshCache example_config (serving (ReleaseList [release_v2])) 2000000 cached_v1)))
     = Some \<lparr>RELEASES = Some ''ABCD argos-1.0.0-full.nupkg 1024'',
             yamlFiles = Some [(''latest-mac.yml'', ''version: 1.0.0'')]\<rparr>"
  by (simp add: refreshCache_def cache_after_def selects_def truthy_def example_config_def
        cached_v1_def release_v2_def installer_v2_def process_asset_def exe_platform
        exe_not_yml apply_yaml_files_def platforms_of_def)

section \<open>The short circuit\<close>

text \<open>
  A refresh either leaves the state as it is, whatever the time, or is one whose selected
  release has an assets array and whose tag is the snapshot's version afterwards.
\<close>

lemma refreshCache_outcomes:
  "(\<forall>t. refreshCache cfg w t s = (fst (refreshCache cfg w now s), [], s))
   \<or> (\<exists>resp dat rel assts.
         retry (fetch_ok w (releases_url cfg)) 3 = Inr resp
         \<and> json_of w (body_text resp) = Some (ReleaseList dat)
         \<and> find (selects cfg) dat = Some rel
         \<and> assets rel = Some assts
         \<and> version (latest (cache_after (refreshCache cfg w now s))) = Some (tag_name rel))"
proof (cases "retry (fetch_ok w (releases_url cfg)) 3")
  case (Inl e)
  then show ?thesis by (simp add: refreshCache_def)
next
  case (Inr resp)
  show ?thesis
  proof (cases "json_of w (body_text resp)")
    case None
    with Inr show ?thesis by (simp add: refreshCache_def)
  next
    case (Some parsed)
    show ?thesis
    proof (cases parsed)
      case NotAnArray
      with Inr Some show ?thesis by (simp add: refreshCache_def)
    next
      case (ReleaseList dat)
      show ?thesis
      proof (cases "find (selects cfg) dat")
        case None
        with Inr Some ReleaseList show ?thesis by (simp add: refreshCache_def)
      next
        case found: (Some rel)
        then have ne: "dat \<noteq> []" by auto
        show ?thesis
        proof (cases "assets rel")
          case None
          with Inr Some ReleaseList found ne show ?thesis by (simp add: refreshCache_def)
        next
          case has: (Some assts)
          have "version (latest (cache_after (refreshCache cfg w now s))) = Some (tag_name rel)"
          proof (cases "version (latest s) = Some (tag_name rel)")
            case True
            with Inr Some ReleaseList found ne has show ?thesis
              by (simp add: refreshCache_def cache_after_def)
          next
            case False
            let ?start = "((latest s)\<lparr>version := Some (tag_name rel),
                notes_text := Some (body rel), pub_date := Some (published_at rel),
                platforms := Some []\<rparr>, [] :: yaml_files, [] :: string list)"
            obtain l yamls requested where run: "process_assets w assts ?start = (l, yamls, requested)"
              by (cases "process_assets w assts ?start")
            have "version l = Some (tag_name rel)"
              using process_assets_header [of w assts ?start, unfolded run] by simp
            with False Inr Some ReleaseList found ne has run show ?thesis
              by (simp add: refreshCache_def cache_after_def apply_yaml_files_header)
          qed
          with Inr Some ReleaseList found has show ?thesis by blast
        qed
      qed
    qed
  qed
qed

text \<open>
  The version of a snapshot that refreshes against one host have built is the tag of the
  release that host selects, and that release has an assets array: the version is
  assigned only past the test of the array.
\<close>

lemma refreshes_version:
  "version (latest (refreshes cfg w nows)) = None
   \<or> (\<exists>resp dat rel assts.
         retry (fetch_ok w (releases_url cfg)) 3 = Inr resp
         \<and> json_of w (body_text resp) = Some (ReleaseList dat)
         \<and> find (selects cfg) dat = Some rel
         \<and> assets rel = Some assts
         \<and> version (latest (refreshes cfg w nows)) = Some (tag_name rel))"
proof (induction nows rule: rev_induct)
  case Nil
  show ?case by (simp add: refreshes_def new_cache_def empty_snapshot_def)
next
  case (snoc now nows)
  let ?s = "refreshes cfg w nows"
  have step: "refreshes cfg w (nows @ [now]) = cache_after (refreshCache cfg w now ?s)"
    by (simp add: refreshes_def)
  from refreshCache_outcomes [of cfg w ?s now] show ?case
  proof
    assume "\<forall>t. refreshCache cfg w t ?s = (fst (refreshCache cfg w now ?s), [], ?s)"
    then have "cache_after (refreshCache cfg w now ?s) = ?s"
      by (metis cache_after_def snd_conv)
    with snoc step show ?thesis by simp
  next
    assume "\<exists>resp dat rel assts.
         retry (fetch_ok w (releases_url cfg)) 3 = Inr resp
         \<and> json_of w (body_text resp) = Some (ReleaseList dat)
         \<and> find (selects cfg) dat = Some rel
         \<and> assets rel = Some assts
         \<and> version (latest (cache_after (refreshCache cfg w now ?s))) = Some (tag_name rel)"
    with step show ?thesis by simp
  qed
qed

text \<open>
  C5. Refresh is idempotent with respect to an unchanged upstream release list: in every
  state that refresh cycles against the host have built, whenever the version tag of the
  release the host's list selects equals the snapshot's version tag, the refresh takes
  the short circuit: it downloads no asset and no manifest, leaves the snapshot as it is,
  version, platform map, checksums and files, and sets \<open>lastUpdate\<close> to the time of
  completion.
\<close>

theorem refreshCache_short_circuit:
  assumes "s = refreshes cfg w nows"
    and "retry (fetch_ok w (releases_url cfg)) 3 = Inr resp"
    and "json_of w (body_text resp) = Some (ReleaseList dat)"
    and "find (selects cfg) dat = Some rel"
    and "version (latest s) = Some (tag_name rel)"
  shows "refreshCache cfg w now s = (Resolved, [], s\<lparr>lastUpdate := Some now\<rparr>)"
proof -
  from assms(4) have ne: "dat \<noteq> []" by auto
  from refreshes_version [of cfg w nows] assms(1,5)
  obtain resp' dat' rel' assts where
    h: "retry (fetch_ok w (releases_url cfg)) 3 = Inr resp'"
       "json_of w (body_text resp') = Some (ReleaseList dat')"
       "find (selects cfg) dat' = Some rel'"
       "assets rel' = Some assts"
    by auto
  from h(1) assms(2) have "resp' = resp" by simp
  with h(2) assms(3) have "dat' = dat" by simp
  with h(3) assms(4) have "rel' = rel" by simp
  with h(4) have "assets rel = Some assts" by simp
  with assms ne show ?thesis by (simp add: refreshCache_def)
qed

lemma refreshes_single: "refreshes cfg w [t] = cache_after (refreshCache cfg w t new_cache)"
  by (simp add: refreshes_def)

lemma first_refresh_v2:
  "version (latest (refreshes example_config (serving (ReleaseList [release_v2])) [1000]))
     = Some ''v2.0.0''"
  by (simp add: refreshes_single refreshCache_def cache_after_def selects_def truthy_def
        example_config_def new_cache_def empty_snapshot_def release_v2_def installer_v2_def
        process_asset_def exe_platform exe_not_yml apply_yaml_files_def)

theorem refreshCache_short_circuit_witness:
  "refreshCache example_config (serving (ReleaseList [release_v2])) 2000000
       (refreshes example_config (serving (ReleaseList [release_v2])) [1000])
     = (Resolved, [],
        (refreshes example_config (serving (ReleaseList [release_v2])) [1000])
          \<lparr>lastUpdate := Some 2000000\<rparr>)"
proof -
  let ?w = "serving (ReleaseList [release_v2])"
  have h1: "retry (fetch_ok ?w (releases_url example_config)) 3
              = Inr \<lparr>status = 200, body_text = ''files: []''\<rparr>"
    by simp
  have h2: "json_of ?w (body_text \<lparr>status = 200, body_text = ''files: []''\<rparr>)
              = Some (ReleaseList [release_v2])"
    by simp
  have h3: "find (selects example_config) [release_v2] = Some release_v2"
    by (simp add: selects_def truthy_def example_config_def release_v2_def)
  have h4: "version (latest (refreshes example_config ?w [1000])) = Some (tag_name release_v2)"
    using first_refresh_v2 by (simp add: release_v2_def)
  show ?thesis by (rule refreshCache_short_circuit [OF refl h1 h2 h3 h4])
qed

text \<open>
  Two refresh cycles in succession against the same host, from any state: whatever the
  first did, the second downloads nothing and leaves the snapshot the first left.
\<close>

lemma refreshCache_twice:
  "latest (cache_after (refreshCache cfg w now' (cache_after (refreshCache cfg w now s))))
     = latest (cache_after (refreshCache cfg w now s))
   \<and> fst (snd (refreshCache cfg w now' (cache_after (refreshCache cfg w now s)))) = []"
proof -
  from refreshCache_outcomes [of cfg w s now] show ?thesis
  proof
    assume same: "\<forall>t. refreshCache cfg w t s = (fst (refreshCache cfg w now s), [], s)"
    then have "cache_after (refreshCache cfg w now s) = s"
      by (metis cache_after_def snd_conv)
    with same show ?thesis by (metis cache_after_def fst_conv snd_conv)
  next
    assume "\<exists>resp dat rel assts.
         retry (fetch_ok w (releases_url cfg)) 3 = Inr resp
         \<and> json_of w (body_text resp) = Some (ReleaseList dat)
         \<and> find (selects cfg) dat = Some rel
         \<and> assets rel = Some assts
         \<and> version (latest (cache_after (refreshCache cfg w now s))) = Some (tag_name rel)"
    then obtain resp dat rel assts where
      h: "retry (fetch_ok w (releases_url cfg)) 3 = Inr resp"
         "json_of w (body_text resp) = Some (ReleaseList dat)"
         "find (selects cfg) dat = Some rel"
         "assets rel = Some assts"
         "version (latest (cache_after (refreshCache cfg w now s))) = Some (tag_name rel)"
      by blast
    from h(3) have "dat \<noteq> []" by auto
    with h have "refreshCache cfg w now' (cache_after (refreshCache cfg w now s))
        = (Resolved, [], (cache_after (refreshCache cfg w now s))\<lparr>lastUpdate := Some now'\<rparr>)"
      by (simp add: refreshCache_def [of cfg w now' "cache_after (refreshCache cfg w now s)"])
    then show ?thesis
      by (simp add: cache_after_def)
  qed
qed

section \<open>The public accessor\<close>

lemma offline_fetch: "retry (fetch_ok offline u) 3 = Inl TransportError"
  by (simp add: retry_def numeral_3_eq_3 fetch_ok_def offline_def)

text \<open>
  C3, as the claim states it, fails: the cache holds v1.0.0, refreshed at time 1000, the
  clock reads 2000000 (more than fifteen minutes later), the host cannot be reached, and
  \<^verbatim>\<open>loadCache\<close> rejects with the error of the fetch instead of returning the snapshot.
\<close>

theorem loadCache_raises_counterexample:
  "lastUpdate cached_v1 = Some 1000
   \<and> version (latest cached_v1) = Some ''v1.0.0''
   \<and> loadCache example_config offline 2000000 2000001 cached_v1 = (Inl TransportError, cached_v1)"
  by (simp add: loadCache_def refreshCache_def offline_fetch never_updated_def isOutdated_def
        ms_minutes_def example_config_def cached_v1_def)

text \<open>
  C3, amended. In a call of \<^verbatim>\<open>loadCache\<close> during which the release-list fetch would
  fail at every attempt: when the cache is neither fresh-born nor outdated, no refresh
  runs and the caller receives the snapshot; otherwise the refresh runs and its error is
  raised to the caller. In both cases the stored snapshot and \<open>lastUpdate\<close> are left as
  they were.
\<close>

theorem loadCache_fetch_exhausted:
  assumes "\<forall>i<4. attempt_fails w (releases_url cfg) i"
  shows "if never_updated s \<or> isOutdated cfg clock s
         then \<exists>e. loadCache cfg w clock now s = (Inl e, s)
         else loadCache cfg w clock now s = (Inr (latest s), s)"
proof -
  from assms have "\<forall>i<4. isl (fetch_ok w (releases_url cfg) i)"
    by (simp add: fetch_ok_fails)
  then obtain e where "retry (fetch_ok w (releases_url cfg)) 3 = Inl e"
    using retry_exhausted by blast
  then have "refreshCache cfg w now s = (Rejected e, [], s)"
    by (simp add: refreshCache_def)
  then show ?thesis
    by (auto simp: loadCache_def)
qed

theorem loadCache_fetch_exhausted_witness:
  "\<exists>e. loadCache example_config offline 2000000 2000001 cached_v1 = (Inl e, cached_v1)"
proof -
  have "\<forall>i<4. attempt_fails offline (releases_url example_config) i"
    by (simp add: attempt_fails_def offline_def)
  moreover have "isOutdated example_config 2000000 cached_v1"
    by (simp add: isOutdated_def ms_minutes_def example_config_def cached_v1_def)
  ultimately show ?thesis
    using loadCache_fetch_exhausted [of offline example_config cached_v1 2000000 2000001]
    by simp
qed

end
